theory Spec2Isabelle
  imports Complex_Main
begin

section \<open>Data model\<close>

text \<open>
  The documents of the two collections, as the Mongoose schemas declare them
  (\<^verbatim>\<open>models/StudySession.ts\<close>, the Task schema). A \<^verbatim>\<open>Date\<close> is its number of
  milliseconds since the epoch, an \<^verbatim>\<open>ObjectId\<close> is a natural number. A JavaScript
  number is the real number it denotes. Where the analytics accumulate hours (the
  breakdowns by subject, hour and day, and the totals per subject), the rounding of
  each double operation is the explicit function \<open>fl\<close>, a parameter of the model; the
  remaining arithmetic is written exactly, and the properties proved of it are
  evaluated at values that doubles hold exactly. A field whose JavaScript value may be \<^verbatim>\<open>undefined\<close> or \<^verbatim>\<open>null\<close> is an
  option.
\<close>

record studySession =
  sid :: nat
  userId :: nat
  taskId :: nat
  startTime :: int
  endTime :: "int option"
  pomodorosCompleted :: "int option"
  totalMinutes :: int
  wasCompleted :: "bool option"
  sessionNotes :: string
  createdAt :: int

record task =
  tid :: nat
  owner :: nat
  title :: string
  subject :: "string option"
  estimatedHours :: "real option"
  actualHours :: "real option"

text \<open>
  The database: both collections, and the source of fresh \<^verbatim>\<open>_id\<close> values for
  created sessions.
\<close>

record store =
  sessions :: "studySession list"
  tasks :: "task list"
  nextId :: nat

definition emptyStore :: store where
  "emptyStore = \<lparr>sessions = [], tasks = [], nextId = 0\<rparr>"

text \<open>
  The error responses of the session routes: 401, 400 (\<open>You already have an active
  session\<close>), 404 (\<open>Session not found\<close>) and the 500 of the \<^verbatim>\<open>catch\<close> block.
\<close>

datatype error = Unauthorized | ActiveSessionExists | SessionNotFound | Failed

section \<open>The session routes\<close>

subsection \<open>POST: start a session\<close>

text \<open>
  \<open>auth\<close> is the result of \<^verbatim>\<open>getUserIdFromRequest\<close>, \<open>body\<close> the \<^verbatim>\<open>taskId\<close> of the
  request body (\<open>None\<close> when the body has none: the schema requires the field, so
  \<^verbatim>\<open>StudySession.create\<close> throws and the handler answers 500). The active-session
  query runs before the creation, as in the source. The remaining fields of the new
  document are the schema defaults.
\<close>

definition sessions_POST ::
  "int \<Rightarrow> nat option \<Rightarrow> nat option \<Rightarrow> store \<Rightarrow> (error + studySession) \<times> store" where
  "sessions_POST now auth body st =
    (case auth of
       None \<Rightarrow> (Inl Unauthorized, st)
     | Some u \<Rightarrow>
        (case find (\<lambda>s. userId s = u \<and> endTime s = None) (sessions st) of
           Some activeSession \<Rightarrow> (Inl ActiveSessionExists, st)
         | None \<Rightarrow>
            (case body of
               None \<Rightarrow> (Inl Failed, st)
             | Some t \<Rightarrow>
                (let session = \<lparr>sid = nextId st, userId = u, taskId = t, startTime = now,
                                 endTime = None, pomodorosCompleted = Some 0,
                                 totalMinutes = 0, wasCompleted = Some False,
                                 sessionNotes = [], createdAt = now\<rparr>
                 in (Inr session,
                     st\<lparr>sessions := sessions st @ [session],
                        nextId := Suc (nextId st)\<rparr>)))))"

subsection \<open>PUT: complete a session\<close>

text \<open>The request body of PUT; the three optional fields may be absent.\<close>

record putBody =
  b_sessionId :: nat
  b_pomodorosCompleted :: "int option"
  b_wasCompleted :: "bool option"
  b_notes :: "string option"

text \<open>\<^verbatim>\<open>doc.save()\<close> writes the document back under its \<^verbatim>\<open>_id\<close>.\<close>

definition saveSession :: "studySession \<Rightarrow> store \<Rightarrow> store" where
  "saveSession d st = st\<lparr>sessions := map (\<lambda>s. if sid s = sid d then d else s) (sessions st)\<rparr>"

definition saveTask :: "task \<Rightarrow> store \<Rightarrow> store" where
  "saveTask d st = st\<lparr>tasks := map (\<lambda>t. if tid t = tid d then d else t) (tasks st)\<rparr>"

text \<open>\<^verbatim>\<open>x || 0\<close> and \<^verbatim>\<open>x ?? 0\<close> on a number that may be missing.\<close>

fun orZero :: "real option \<Rightarrow> real" where
  "orZero None = 0"
| "orZero (Some x) = x"

text \<open>
  The fields PUT assigns to the session it found. \<^verbatim>\<open>Math.floor\<close> of the quotient of
  two integers is the floor division \<open>div\<close> of \<open>int\<close>. \<^verbatim>\<open>if (notes)\<close> holds when the
  string is present and not empty.
\<close>

definition completeFields :: "int \<Rightarrow> putBody \<Rightarrow> studySession \<Rightarrow> studySession" where
  "completeFields now body session =
    (let endT = now;
         minutes = (endT - startTime session) div 60000
     in session\<lparr>endTime := Some endT,
                 pomodorosCompleted := b_pomodorosCompleted body,
                 totalMinutes := minutes,
                 wasCompleted := b_wasCompleted body,
                 sessionNotes := (case b_notes body of
                                    None \<Rightarrow> sessionNotes session
                                  | Some n \<Rightarrow> if n \<noteq> [] then n else sessionNotes session)\<rparr>)"

definition sessions_PUT ::
  "int \<Rightarrow> nat option \<Rightarrow> putBody \<Rightarrow> store \<Rightarrow> (error + studySession) \<times> store" where
  "sessions_PUT now auth body st =
    (case auth of
       None \<Rightarrow> (Inl Unauthorized, st)
     | Some u \<Rightarrow>
        (case find (\<lambda>s. sid s = b_sessionId body \<and> userId s = u) (sessions st) of
           None \<Rightarrow> (Inl SessionNotFound, st)
         | Some found \<Rightarrow>
            (let session = completeFields now body found;
                 st1 = saveSession session st;
                 st2 = (case find (\<lambda>t. tid t = taskId session) (tasks st1) of
                          None \<Rightarrow> st1
                        | Some t \<Rightarrow>
                            saveTask
                              (t\<lparr>actualHours :=
                                   Some (orZero (actualHours t)
                                         + of_int (totalMinutes session) / 60)\<rparr>) st1)
             in (Inr session, st2))))"

subsection \<open>POST between its awaits\<close>

text \<open>
  \<open>sessions_POST\<close> is a request that runs alone. The handler is asynchronous: it awaits
  the query \<^verbatim>\<open>findOne\<close> and, in a later turn of the event loop, the insertion
  \<^verbatim>\<open>create\<close>; the collection has no unique index and the two calls are not in a
  transaction, so another request may use the store between them. A handler in flight
  is about to query, or has found no active session and is about to create (it then
  holds the user and the task id), or has answered. \<open>postStep\<close> runs it up to its next
  access to the store; the clock is read when the session is created.
\<close>

datatype postHandler =
  AtQuery "nat option" "nat option"
| AtCreate nat "nat option"
| Answered "error + studySession"

fun postStep :: "int \<Rightarrow> postHandler \<Rightarrow> store \<Rightarrow> postHandler \<times> store" where
  "postStep now (AtQuery auth body) st =
    (case auth of
       None \<Rightarrow> (Answered (Inl Unauthorized), st)
     | Some u \<Rightarrow>
        (case find (\<lambda>s. userId s = u \<and> endTime s = None) (sessions st) of
           Some activeSession \<Rightarrow> (Answered (Inl ActiveSessionExists), st)
         | None \<Rightarrow> (AtCreate u body, st)))"
| "postStep now (AtCreate u body) st =
    (case body of
       None \<Rightarrow> (Answered (Inl Failed), st)
     | Some t \<Rightarrow>
        (let session = \<lparr>sid = nextId st, userId = u, taskId = t, startTime = now,
                         endTime = None, pomodorosCompleted = Some 0,
                         totalMinutes = 0, wasCompleted = Some False,
                         sessionNotes = [], createdAt = now\<rparr>
         in (Answered (Inr session),
             st\<lparr>sessions := sessions st @ [session],
                nextId := Suc (nextId st)\<rparr>)))"
| "postStep now (Answered r) st = (Answered r, st)"

text \<open>
  Several POST handlers in flight on one store. A schedule lists which handler takes
  its next step, and the clock reading at that moment.
\<close>

fun runPosts ::
  "(nat \<times> int) list \<Rightarrow> postHandler list \<Rightarrow> store \<Rightarrow> postHandler list \<times> store" where
  "runPosts [] hs st = (hs, st)"
| "runPosts ((i, now) # sched) hs st =
    (if i < length hs
     then (case postStep now (hs ! i) st of (h, st') \<Rightarrow> runPosts sched (hs[i := h]) st')
     else runPosts sched hs st)"

text \<open>The sessions of a user that are still open.\<close>

definition activeSessions :: "store \<Rightarrow> nat \<Rightarrow> studySession list" where
  "activeSessions st u = filter (\<lambda>s. userId s = u \<and> endTime s = None) (sessions st)"

section \<open>The analytics route\<close>

subsection \<open>Dates\<close>

text \<open>
  The server's time zone, as the \<^verbatim>\<open>Date\<close> methods use it: the offset of local time
  from UTC in milliseconds, given an instant (\<open>tzaUtc\<close>) and given a local time
  (\<open>tzaLocal\<close>). With daylight saving the offset depends on the instant.
\<close>

record timeZone =
  tzaUtc :: "int \<Rightarrow> int"
  tzaLocal :: "int \<Rightarrow> int"

definition fixedZone :: "int \<Rightarrow> timeZone" where
  "fixedZone c = \<lparr>tzaUtc = (\<lambda>t. c), tzaLocal = (\<lambda>t. c)\<rparr>"

text \<open>
  \<^verbatim>\<open>toISOString().split('T')[0]\<close> is the UTC calendar date of an instant; it is
  represented by the UTC day number, of which the date string is an injective rendering.
  \<^verbatim>\<open>getHours()\<close> is the hour of the local time of the instant.
  \<^verbatim>\<open>date.setDate(date.getDate() - i)\<close> works on the local calendar: it takes the local
  time of the instant, moves it back by \<open>i\<close> calendar days at the same time of day, and
  converts the result to an instant with the offset in force at that local time. One
  request reads the clock once (\<open>now\<close>).
\<close>

definition isoDate :: "int \<Rightarrow> int" where
  "isoDate t = t div 86400000"

definition getHours :: "timeZone \<Rightarrow> int \<Rightarrow> nat" where
  "getHours z t = nat (((t + tzaUtc z t) div 3600000) mod 24)"

definition daysBefore :: "timeZone \<Rightarrow> int \<Rightarrow> nat \<Rightarrow> int" where
  "daysBefore z t i =
    (let localTime = t + tzaUtc z t;
         moved = localTime - int i * 86400000
     in moved - tzaLocal z moved)"

subsection \<open>Accuracy\<close>

record taskAccuracyRow =
  r_taskId :: nat
  r_title :: string
  r_subject :: "string option"
  estimated :: real
  actual :: real
  difference :: real
  accuracyPercent :: real

definition taskAccuracyOf :: "task \<Rightarrow> taskAccuracyRow" where
  "taskAccuracyOf t =
    (let est = orZero (estimatedHours t);
         act = orZero (actualHours t);
         diff = act - est;
         percent = (if est > 0 then ((est - \<bar>diff\<bar>) / est) * 100 else 0)
     in \<lparr>r_taskId = tid t, r_title = title t, r_subject = subject t,
         estimated = est, actual = act, difference = diff,
         accuracyPercent = max 0 percent\<rparr>)"

definition totalEstimatedOf :: "task list \<Rightarrow> real" where
  "totalEstimatedOf ts = foldl (\<lambda>sum t. sum + orZero (estimatedHours t)) 0 ts"

definition totalActualOf :: "task list \<Rightarrow> real" where
  "totalActualOf ts = foldl (\<lambda>sum t. sum + orZero (actualHours t)) 0 ts"

definition overallAccuracyOf :: "task list \<Rightarrow> real" where
  "overallAccuracyOf ts =
    (let totalEstimated = totalEstimatedOf ts;
         totalActual = totalActualOf ts
     in if totalEstimated > 0
        then ((totalEstimated - \<bar>totalActual - totalEstimated\<bar>) / totalEstimated) * 100
        else 0)"

subsection \<open>Totals\<close>

text \<open>
  A session read back from the collection has the schema default 0 where
  \<^verbatim>\<open>pomodorosCompleted\<close> was stored as undefined.
\<close>

fun pomodorosOf :: "studySession \<Rightarrow> int" where
  "pomodorosOf s = (case pomodorosCompleted s of None \<Rightarrow> 0 | Some n \<Rightarrow> n)"

text \<open>\<^verbatim>\<open>session.totalMinutes / 60\<close>, one rounded division.\<close>

definition hoursOf :: "(real \<Rightarrow> real) \<Rightarrow> studySession \<Rightarrow> real" where
  "hoursOf fl s = fl (of_int (totalMinutes s) / 60)"

text \<open>
  \<^verbatim>\<open>parseFloat(x.toFixed(1))\<close>: the nearest multiple of one tenth, a tie going away from
  zero, of the number as written exactly.
\<close>

definition toFixed1 :: "real \<Rightarrow> real" where
  "toFixed1 x = (if x < 0 then - (of_int \<lfloor>- x * 10 + 1 / 2\<rfloor> / 10)
                 else of_int \<lfloor>x * 10 + 1 / 2\<rfloor> / 10)"

subsection \<open>Breakdowns by subject, hour and day\<close>

text \<open>
  \<^verbatim>\<open>obj[k] = (obj[k] || 0) + x\<close>, one rounded addition, on an object with string keys.
  The keys are kept in insertion order, which is the order of a JavaScript object for
  subject names that are not written like array indices.
\<close>

fun addTo ::
  "(real \<Rightarrow> real) \<Rightarrow> string \<Rightarrow> real \<Rightarrow> (string \<times> real) list \<Rightarrow> (string \<times> real) list" where
  "addTo fl k x [] = [(k, fl (0 + x))]"
| "addTo fl k x ((k', v) # kvs) =
     (if k = k' then (k', fl (v + x)) # kvs else (k', v) # addTo fl k x kvs)"

text \<open>
  \<^verbatim>\<open>populate('taskId')\<close> replaces the reference by the task document, or by null when
  the task is gone; a missing subject reads as the key \<open>undefined\<close>.
\<close>

definition subjectDataOf ::
  "(real \<Rightarrow> real) \<Rightarrow> task list \<Rightarrow> studySession list \<Rightarrow> (string \<times> real) list" where
  "subjectDataOf fl allTasks ss =
    foldl (\<lambda>acc s.
             case find (\<lambda>t. tid t = taskId s) allTasks of
               None \<Rightarrow> acc
             | Some t \<Rightarrow>
                 addTo fl (case subject t of None \<Rightarrow> ''undefined'' | Some n \<Rightarrow> n)
                   (hoursOf fl s) acc)
          [] ss"

text \<open>The body of the \<^verbatim>\<open>forEach\<close> that fills \<^verbatim>\<open>hourlyData\<close>, and the loop.\<close>

definition hourlyStep ::
  "timeZone \<Rightarrow> (real \<Rightarrow> real) \<Rightarrow> (nat \<rightharpoonup> real) \<Rightarrow> studySession \<Rightarrow> (nat \<rightharpoonup> real)" where
  "hourlyStep z fl m s =
    (let hour = getHours z (startTime s)
     in m(hour \<mapsto> fl (orZero (m hour) + hoursOf fl s)))"

definition hourlyDataOf ::
  "timeZone \<Rightarrow> (real \<Rightarrow> real) \<Rightarrow> studySession list \<Rightarrow> (nat \<rightharpoonup> real)" where
  "hourlyDataOf z fl ss = foldl (hourlyStep z fl) Map.empty ss"

text \<open>
  \<^verbatim>\<open>Object.entries\<close> of an object whose keys are array indices (here the hours 0 to 23)
  lists them in ascending numeric order, whatever the order of insertion.
\<close>

definition entriesOf :: "(nat \<rightharpoonup> real) \<Rightarrow> (nat \<times> real) list" where
  "entriesOf m = List.map_filter (\<lambda>h. map_option (Pair h) (m h)) [0..<24]"

definition mostProductiveStep :: "nat \<times> real \<Rightarrow> nat \<times> real \<Rightarrow> nat \<times> real" where
  "mostProductiveStep acc e =
    (case acc of (best, maxHours) \<Rightarrow>
       (case e of (hour, hours) \<Rightarrow>
          if hours > maxHours then (hour, hours) else (best, maxHours)))"

definition mostProductiveHourOf :: "(nat \<rightharpoonup> real) \<Rightarrow> nat" where
  "mostProductiveHourOf m = fst (foldl mostProductiveStep (0, 0) (entriesOf m))"

definition last7Days :: "timeZone \<Rightarrow> int \<Rightarrow> int list" where
  "last7Days z now = map (\<lambda>i. isoDate (daysBefore z now (6 - i))) [0..<7]"

text \<open>
  The body of the \<^verbatim>\<open>forEach\<close> that fills \<^verbatim>\<open>dailyStudyTime\<close>: the entry is
  incremented only when the object has the day as its own property. The object is
  first given the seven days with value 0.
\<close>

definition dailyStep ::
  "(real \<Rightarrow> real) \<Rightarrow> (int \<rightharpoonup> real) \<Rightarrow> studySession \<Rightarrow> (int \<rightharpoonup> real)" where
  "dailyStep fl m s =
    (let day = isoDate (startTime s)
     in case m day of
          None \<Rightarrow> m
        | Some v \<Rightarrow> m(day \<mapsto> fl (v + hoursOf fl s)))"

definition dailyStudyTimeOf ::
  "int \<Rightarrow> timeZone \<Rightarrow> (real \<Rightarrow> real) \<Rightarrow> studySession list \<Rightarrow> (int \<rightharpoonup> real)" where
  "dailyStudyTimeOf now z fl ss =
    foldl (dailyStep fl) (foldl (\<lambda>m day. m(day \<mapsto> 0)) Map.empty (last7Days z now)) ss"

subsection \<open>Streak\<close>

definition hasSessions :: "studySession list \<Rightarrow> int \<Rightarrow> bool" where
  "hasSessions ss dayStr = list_ex (\<lambda>s. isoDate (startTime s) = dayStr) ss"

text \<open>
  The \<^verbatim>\<open>for\<close> loop over \<open>i\<close> with its \<^verbatim>\<open>continue\<close> and \<^verbatim>\<open>break\<close>; the result is
  \<^verbatim>\<open>tempStreak\<close> when the loop is left.
\<close>

function streakLoop :: "timeZone \<Rightarrow> studySession list \<Rightarrow> int \<Rightarrow> nat \<Rightarrow> nat \<Rightarrow> nat" where
  "streakLoop z ss now i tempStreak =
    (if i < 30 then
       (if hasSessions ss (isoDate (daysBefore z now i))
        then streakLoop z ss now (Suc i) (Suc tempStreak)
        else if isoDate (daysBefore z now i) = isoDate now
             then streakLoop z ss now (Suc i) tempStreak
             else tempStreak)
     else tempStreak)"
  by pat_completeness auto
termination
  by (relation "measure (\<lambda>(z, ss, now, i, tempStreak). 30 - i)") auto

declare streakLoop.simps [simp del]

definition currentStreakOf :: "int \<Rightarrow> timeZone \<Rightarrow> studySession list \<Rightarrow> nat" where
  "currentStreakOf now z ss = streakLoop z ss now 0 0"

subsection \<open>Insights\<close>

text \<open>
  The per-subject totals of the tasks: \<^verbatim>\<open>acc[subj]\<close> is created with zeros, then the
  task's hours are added, each by one rounded addition, and the count incremented. The
  literal \<^verbatim>\<open>1.2\<close> is the double nearest to 12/10. Subjects are kept in insertion
  order, as for the breakdown by subject.
\<close>

fun addTotals ::
  "(real \<Rightarrow> real) \<Rightarrow> string \<Rightarrow> real \<Rightarrow> real \<Rightarrow> (string \<times> real \<times> real \<times> nat) list
     \<Rightarrow> (string \<times> real \<times> real \<times> nat) list" where
  "addTotals fl k e a [] = [(k, fl (0 + e), fl (0 + a), Suc 0)]"
| "addTotals fl k e a ((k', est, act, cnt) # kvs) =
     (if k = k' then (k', fl (est + e), fl (act + a), Suc cnt) # kvs
      else (k', est, act, cnt) # addTotals fl k e a kvs)"

definition underestimatedSubjectsOf ::
  "(real \<Rightarrow> real) \<Rightarrow> task list \<Rightarrow> (string \<times> real \<times> real \<times> nat) list" where
  "underestimatedSubjectsOf fl ts =
    filter (\<lambda>(name, est, act, cnt). act > fl (est * fl (12 / 10)) \<and> cnt \<ge> 2)
      (foldl (\<lambda>acc t. addTotals fl (case subject t of None \<Rightarrow> ''Unknown'' | Some n \<Rightarrow> n)
                         (orZero (estimatedHours t)) (orZero (actualHours t)) acc)
             [] ts)"

text \<open>
  An insight is one of five message templates together with the values the template
  interpolates: the weekly Pomodoro count; the warning that estimates are often off; the
  praise for accurate estimates; the peak hour on the 12-hour clock with its meridiem;
  the streak length; the names of the underestimated subjects.
\<close>

datatype insight =
  WeeklyPomodoros int
| EstimatesOff
| EstimatesAccurate
| PeakProductivity nat string
| StudyStreak nat
| Underestimated "string list"

definition insightsOf ::
  "int \<Rightarrow> real \<Rightarrow> nat \<Rightarrow> nat \<Rightarrow> (string \<times> real \<times> real \<times> nat) list \<Rightarrow> insight list" where
  "insightsOf weeklyPomodoros overall hour streak underestimated =
    (if weeklyPomodoros > 0 then [WeeklyPomodoros weeklyPomodoros] else [])
    @ (if overall < 50 then [EstimatesOff]
       else if overall > 80 then [EstimatesAccurate] else [])
    @ (if hour \<noteq> 0 \<or> hour = 0
       then [PeakProductivity (((hour + 11) mod 12) + 1) (if hour \<ge> 12 then ''PM'' else ''AM'')]
       else [])
    @ (if streak > 0 then [StudyStreak streak] else [])
    @ (if length underestimated > 0 then [Underestimated (map fst underestimated)] else [])"

subsection \<open>GET: the analytics snapshot\<close>

record summary =
  totalPomodoros :: int
  totalHoursStudied :: real
  overallAccuracy :: real
  currentStreak :: nat
  sessionsCount :: nat

record analytics =
  summaryBlock :: summary
  taskAccuracy :: "taskAccuracyRow list"
  subjectData :: "(string \<times> real) list"
  hourlyData :: "nat \<rightharpoonup> real"
  dailyStudyTime :: "int \<rightharpoonup> real"
  mostProductiveHour :: nat
  insights :: "insight list"

text \<open>The completed sessions and the tasks the two queries of GET return for a user.\<close>

definition completedSessions :: "store \<Rightarrow> nat \<Rightarrow> studySession list" where
  "completedSessions st u = filter (\<lambda>s. userId s = u \<and> endTime s \<noteq> None) (sessions st)"

definition tasksOfUser :: "store \<Rightarrow> nat \<Rightarrow> task list" where
  "tasksOfUser st u = filter (\<lambda>t. owner t = u) (tasks st)"

definition analytics_GET ::
  "int \<Rightarrow> timeZone \<Rightarrow> (real \<Rightarrow> real) \<Rightarrow> nat option \<Rightarrow> store \<Rightarrow> error + analytics" where
  "analytics_GET now z fl auth st =
    (case auth of
       None \<Rightarrow> Inl Unauthorized
     | Some u \<Rightarrow>
        (let ss = completedSessions st u;
             ts = tasksOfUser st u;
             sevenDaysAgo = now - 7 * 24 * 60 * 60 * 1000;
             recentSessions = filter (\<lambda>s. startTime s \<ge> sevenDaysAgo) ss;
             totalPoms = foldl (\<lambda>sum s. sum + pomodorosOf s) 0 ss;
             weeklyPomodoros = foldl (\<lambda>sum s. sum + pomodorosOf s) 0 recentSessions;
             totalMinutesStudied = foldl (\<lambda>sum s. sum + totalMinutes s) 0 ss;
             totalHours = of_int totalMinutesStudied / 60;
             overall = overallAccuracyOf ts;
             hourly = hourlyDataOf z fl ss;
             hour = mostProductiveHourOf hourly;
             streak = currentStreakOf now z ss
         in Inr \<lparr>summaryBlock =
                   \<lparr>totalPomodoros = totalPoms,
                    totalHoursStudied = toFixed1 totalHours,
                    overallAccuracy = toFixed1 overall,
                    currentStreak = streak,
                    sessionsCount = length ss\<rparr>,
                 taskAccuracy = map taskAccuracyOf ts,
                 subjectData = subjectDataOf fl (tasks st) ss,
                 hourlyData = hourly,
                 dailyStudyTime = dailyStudyTimeOf now z fl ss,
                 mostProductiveHour = hour,
                 insights = insightsOf weeklyPomodoros overall hour streak
                              (underestimatedSubjectsOf fl ts)\<rparr>))"

section \<open>The streak as the specification describes it\<close>

text \<open>
  The specification's account of the streak, to be compared with the loop of the
  handler. A day counts when a completed session started on it; \<open>dayCounts ss now j\<close>
  says so of the day \<open>j\<close> days before today. The scan covers the 30 days from today
  backwards; today adds one when it counts and never ends the scan; from yesterday on
  the days are counted up to the first one that does not count.
\<close>

definition dayCounts :: "studySession list \<Rightarrow> int \<Rightarrow> nat \<Rightarrow> bool" where
  "dayCounts ss now j = hasSessions ss (isoDate now - int j)"

definition streakSpec :: "studySession list \<Rightarrow> int \<Rightarrow> nat" where
  "streakSpec ss now =
     (if dayCounts ss now 0 then 1 else 0) + length (takeWhile (dayCounts ss now) [1..<30])"

section \<open>Concrete stores\<close>

text \<open>
  Small databases on which the handlers are run: a user 1 with one task and one open
  session started at instant 0; the same without the session; without the task; with
  the session started two minutes after instant 0; and with a session that already
  carries notes.
\<close>

definition exampleSession :: studySession where
  "exampleSession = \<lparr>sid = 0, userId = 1, taskId = 5, startTime = 0, endTime = None,
      pomodorosCompleted = Some 0, totalMinutes = 0, wasCompleted = Some False,
      sessionNotes = [], createdAt = 0\<rparr>"

definition exampleTask :: task where
  "exampleTask = \<lparr>tid = 5, owner = 1, title = ''essay'', subject = Some ''History'',
      estimatedHours = Some 2, actualHours = Some 0\<rparr>"

definition exampleStore :: store where
  "exampleStore = \<lparr>sessions = [exampleSession], tasks = [exampleTask], nextId = 1\<rparr>"

definition exampleBody :: putBody where
  "exampleBody = \<lparr>b_sessionId = 0, b_pomodorosCompleted = Some 2,
      b_wasCompleted = Some True, b_notes = None\<rparr>"

definition idleStore :: store where
  "idleStore = \<lparr>sessions = [], tasks = [exampleTask], nextId = 0\<rparr>"

definition orphanStore :: store where
  "orphanStore = \<lparr>sessions = [exampleSession], tasks = [], nextId = 1\<rparr>"

definition skewedStore :: store where
  "skewedStore = \<lparr>sessions = [exampleSession\<lparr>startTime := 120000, createdAt := 120000\<rparr>],
      tasks = [exampleTask], nextId = 1\<rparr>"

definition notedSession :: studySession where
  "notedSession = exampleSession\<lparr>sessionNotes := ''chapter 3''\<rparr>"

definition notedStore :: store where
  "notedStore = \<lparr>sessions = [notedSession], tasks = [exampleTask], nextId = 1\<rparr>"

definition emptyNotesBody :: putBody where
  "emptyNotesBody = \<lparr>b_sessionId = 0, b_pomodorosCompleted = Some 2,
      b_wasCompleted = Some True, b_notes = Some []\<rparr>"

text \<open>
  Two servers: one that runs in UTC, and one in New York in 2024, where local time is
  five hours behind UTC and four hours behind between 10 March, 07:00 UTC and
  3 November, 06:00 UTC. In the runs below every number is an integer or a half, which
  doubles hold exactly, so rounding is the identity there.
\<close>

definition utcZone :: timeZone where
  "utcZone = fixedZone 0"

definition newYork2024 :: timeZone where
  "newYork2024 =
    \<lparr>tzaUtc = (\<lambda>t. if 1710054000000 \<le> t \<and> t < 1730613600000 then - 14400000 else - 18000000),
     tzaLocal = (\<lambda>t. if 1710036000000 \<le> t \<and> t < 1730599200000 then - 14400000 else - 18000000)\<rparr>"

definition exact :: "real \<Rightarrow> real" where
  "exact x = x"

text \<open>
  Completed sessions of user 1 for the analytics: two one-hour sessions at 14:00 and at
  09:00 UTC of day 0, stored in that order; one session at 14:00 completed within the
  minute; sessions on 5, 4 and 2 November 2024 (UTC) and none on 3 November; and a task
  estimated at 10 hours on which 25 were spent.
\<close>

definition tieStore :: store where
  "tieStore = \<lparr>sessions =
      [\<lparr>sid = 0, userId = 1, taskId = 5, startTime = 50400000, endTime = Some 54000000,
        pomodorosCompleted = Some 2, totalMinutes = 60, wasCompleted = Some True,
        sessionNotes = [], createdAt = 50400000\<rparr>,
       \<lparr>sid = 1, userId = 1, taskId = 5, startTime = 32400000, endTime = Some 36000000,
        pomodorosCompleted = Some 2, totalMinutes = 60, wasCompleted = Some True,
        sessionNotes = [], createdAt = 32400000\<rparr>],
     tasks = [exampleTask], nextId = 2\<rparr>"

definition zeroMinuteStore :: store where
  "zeroMinuteStore = \<lparr>sessions =
      [\<lparr>sid = 0, userId = 1, taskId = 5, startTime = 50400000, endTime = Some 50430000,
        pomodorosCompleted = Some 0, totalMinutes = 0, wasCompleted = Some False,
        sessionNotes = [], createdAt = 50400000\<rparr>],
     tasks = [exampleTask], nextId = 1\<rparr>"

definition novemberStore :: store where
  "novemberStore = \<lparr>sessions =
      [\<lparr>sid = 0, userId = 1, taskId = 5, startTime = 1730559600000,
        endTime = Some 1730563200000, pomodorosCompleted = Some 2, totalMinutes = 60,
        wasCompleted = Some True, sessionNotes = [], createdAt = 1730559600000\<rparr>,
       \<lparr>sid = 1, userId = 1, taskId = 5, startTime = 1730732400000,
        endTime = Some 1730736000000, pomodorosCompleted = Some 2, totalMinutes = 60,
        wasCompleted = Some True, sessionNotes = [], createdAt = 1730732400000\<rparr>,
       \<lparr>sid = 2, userId = 1, taskId = 5, startTime = 1730765400000,
        endTime = Some 1730766000000, pomodorosCompleted = Some 0, totalMinutes = 10,
        wasCompleted = Some False, sessionNotes = [], createdAt = 1730765400000\<rparr>],
     tasks = [exampleTask], nextId = 3\<rparr>"

definition overrunTask :: task where
  "overrunTask = \<lparr>tid = 6, owner = 1, title = ''thesis'', subject = Some ''Physics'',
      estimatedHours = Some 10, actualHours = Some 25\<rparr>"

definition overrunStore :: store where
  "overrunStore = \<lparr>sessions = [], tasks = [overrunTask], nextId = 0\<rparr>"

section \<open>Properties of the session routes\<close>

subsection \<open>Auxiliary facts\<close>

lemma filter_map_le:
  assumes "\<And>x. P (f x) \<Longrightarrow> P x"
  shows "length (filter P (map f xs)) \<le> length (filter P xs)"
  using assms by (induction xs) auto

lemma saveTask_sessions: "sessions (saveTask d st) = sessions st"
  by (simp add: saveTask_def)

lemma saveSession_tasks: "tasks (saveSession d st) = tasks st"
  by (simp add: saveSession_def)

lemma completeFields_endTime: "endTime (completeFields now body s) = Some now"
  by (simp add: completeFields_def Let_def)

lemma completeFields_ids:
  "sid (completeFields now body s) = sid s"
  "userId (completeFields now body s) = userId s"
  "taskId (completeFields now body s) = taskId s"
  by (simp_all add: completeFields_def Let_def)

lemma completeFields_totalMinutes:
  "totalMinutes (completeFields now body s) = (now - startTime s) div 60000"
  by (simp add: completeFields_def Let_def)

lemma PUT_sessions:
  "sessions (snd (sessions_PUT now auth body st)) = sessions st \<or>
   (\<exists>d. endTime d \<noteq> None \<and>
        sessions (snd (sessions_PUT now auth body st)) =
          map (\<lambda>s. if sid s = sid d then d else s) (sessions st))"
proof (cases auth)
  case None
  then show ?thesis by (simp add: sessions_PUT_def)
next
  case (Some u)
  show ?thesis
  proof (cases "find (\<lambda>s. sid s = b_sessionId body \<and> userId s = u) (sessions st)")
    case None
    with Some show ?thesis by (simp add: sessions_PUT_def)
  next
    case (Some found)
    let ?d = "completeFields now body found"
    have "sessions (snd (sessions_PUT now auth body st)) = sessions (saveSession ?d st)"
      using Some \<open>auth = Some u\<close>
      by (simp add: sessions_PUT_def Let_def saveTask_sessions split: option.split)
    moreover have "endTime ?d \<noteq> None" by (simp add: completeFields_endTime)
    ultimately show ?thesis by (auto simp: saveSession_def)
  qed
qed

lemma PUT_active_le:
  "length (activeSessions (snd (sessions_PUT now auth body st)) u) \<le> length (activeSessions st u)"
proof -
  from PUT_sessions [of now auth body st] show ?thesis
  proof
    assume "sessions (snd (sessions_PUT now auth body st)) = sessions st"
    then show ?thesis by (simp add: activeSessions_def)
  next
    assume "\<exists>d. endTime d \<noteq> None \<and>
        sessions (snd (sessions_PUT now auth body st)) =
          map (\<lambda>s. if sid s = sid d then d else s) (sessions st)"
    then obtain d where d: "endTime d \<noteq> None"
      and eq: "sessions (snd (sessions_PUT now auth body st)) =
          map (\<lambda>s. if sid s = sid d then d else s) (sessions st)" by blast
    show ?thesis unfolding activeSessions_def eq
      by (rule filter_map_le) (use d in \<open>auto split: if_splits\<close>)
  qed
qed

lemma find_active_None: "find (\<lambda>s. userId s = u \<and> endTime s = None) (sessions st) = None \<longleftrightarrow> activeSessions st u = []"
  by (auto simp: activeSessions_def find_None_iff filter_empty_conv)

lemma POST_conflict:
  assumes "activeSessions st u \<noteq> []"
  shows "sessions_POST now (Some u) body st = (Inl ActiveSessionExists, st)"
proof -
  from assms have "find (\<lambda>s. userId s = u \<and> endTime s = None) (sessions st) \<noteq> None"
    by (simp add: find_active_None)
  then show ?thesis by (auto simp: sessions_POST_def)
qed

lemma POST_create:
  assumes "activeSessions st u = []"
  shows "sessions_POST now (Some u) (Some t) st =
    (Inr \<lparr>sid = nextId st, userId = u, taskId = t, startTime = now,
          endTime = None, pomodorosCompleted = Some 0, totalMinutes = 0,
          wasCompleted = Some False, sessionNotes = [], createdAt = now\<rparr>,
     st\<lparr>sessions := sessions st @
          [\<lparr>sid = nextId st, userId = u, taskId = t, startTime = now,
            endTime = None, pomodorosCompleted = Some 0, totalMinutes = 0,
            wasCompleted = Some False, sessionNotes = [], createdAt = now\<rparr>],
        nextId := Suc (nextId st)\<rparr>)"
proof -
  from assms have "find (\<lambda>s. userId s = u \<and> endTime s = None) (sessions st) = None"
    by (simp add: find_active_None)
  then show ?thesis by (simp add: sessions_POST_def Let_def)
qed

lemma POST_active_le:
  assumes "length (activeSessions st v) \<le> 1"
  shows "length (activeSessions (snd (sessions_POST now auth body st)) v) \<le> 1"
proof (cases auth)
  case None
  with assms show ?thesis by (simp add: sessions_POST_def)
next
  case (Some u)
  show ?thesis
  proof (cases "activeSessions st u = []")
    case False
    with assms Some show ?thesis by (simp add: POST_conflict)
  next
    case True
    show ?thesis
    proof (cases body)
      case None
      with True Some assms show ?thesis
        by (simp add: sessions_POST_def find_active_None [symmetric])
    next
      case (Some t)
      with True \<open>auth = Some u\<close> assms show ?thesis
        by (cases "v = u") (auto simp: POST_create activeSessions_def)
    qed
  qed
qed

lemma PUT_found:
  assumes "find (\<lambda>s. sid s = b_sessionId body \<and> userId s = u) (sessions st) = Some found"
  shows "sessions_PUT now (Some u) body st =
    (Inr (completeFields now body found),
     (case find (\<lambda>t. tid t = taskId found) (tasks st) of
        None \<Rightarrow> saveSession (completeFields now body found) st
      | Some t \<Rightarrow>
          saveTask (t\<lparr>actualHours :=
                       Some (orZero (actualHours t)
                             + of_int (totalMinutes (completeFields now body found)) / 60)\<rparr>)
            (saveSession (completeFields now body found) st)))"
  using assms
  by (simp add: sessions_PUT_def Let_def saveSession_tasks completeFields_ids split: option.split)

lemma find_replaced:
  assumes "find P xs = Some found" and "sid d = sid found"
  shows "find (\<lambda>s. sid s = sid found) (map (\<lambda>s. if sid s = sid d then d else s) xs) = Some d"
  using assms by (induction xs) (auto split: if_splits)

lemma PUT_persisted:
  assumes "find (\<lambda>s. sid s = b_sessionId body \<and> userId s = u) (sessions st) = Some found"
  shows "find (\<lambda>s. sid s = sid found) (sessions (snd (sessions_PUT now (Some u) body st)))
         = Some (completeFields now body found)"
proof -
  let ?d = "completeFields now body found"
  have "sessions (snd (sessions_PUT now (Some u) body st)) = sessions (saveSession ?d st)"
    by (simp add: PUT_found [OF assms] saveTask_sessions split: option.split)
  also have "\<dots> = map (\<lambda>s. if sid s = sid ?d then ?d else s) (sessions st)"
    by (simp add: saveSession_def)
  finally show ?thesis
    using find_replaced [OF assms, of ?d] by (simp add: completeFields_ids)
qed

lemma floor_minutes: "\<lfloor>(of_int k :: real) / 60000\<rfloor> = k div 60000"
proof -
  have "\<lfloor>(of_int k :: real) / of_int 60000\<rfloor> = k div 60000"
    by (rule floor_divide_of_int_eq)
  then show ?thesis by simp
qed

lemma find_exampleSession:
  "find (\<lambda>s. sid s = b_sessionId exampleBody \<and> userId s = 1) (sessions exampleStore)
   = Some exampleSession"
  by (simp add: exampleBody_def exampleStore_def exampleSession_def)

lemma postStep_alone:
  "postStep now (fst (postStep now' (AtQuery auth body) st)) (snd (postStep now' (AtQuery auth body) st))
   = (Answered (fst (sessions_POST now auth body st)), snd (sessions_POST now auth body st))"
  by (simp add: sessions_POST_def Let_def split: option.split)

subsection \<open>Starting a session\<close>

text \<open>
  Claim C1 does not hold of the code. A POST that runs alone does what the claim says
  (the three lemmas on POST above, and \<open>postStep_alone\<close>). But the handler awaits its
  query and only then its insertion, and nothing makes the two one step. When two
  requests of user 1 are in flight on a store without open session and both queries
  run before either insertion, both find no active session, both are answered with a
  new session, and the user has two sessions whose \<open>endTime\<close> is null. Run one after
  the other, the second request is refused and one session is open.
\<close>

theorem start_session_interleaved:
  "runPosts [(0, 1000), (1, 1001), (0, 1002), (1, 1003)]
     [AtQuery (Some 1) (Some 5), AtQuery (Some 1) (Some 5)] idleStore
   = ([Answered (Inr \<lparr>sid = 0, userId = 1, taskId = 5, startTime = 1002, endTime = None,
                      pomodorosCompleted = Some 0, totalMinutes = 0, wasCompleted = Some False,
                      sessionNotes = [], createdAt = 1002\<rparr>),
       Answered (Inr \<lparr>sid = 1, userId = 1, taskId = 5, startTime = 1003, endTime = None,
                      pomodorosCompleted = Some 0, totalMinutes = 0, wasCompleted = Some False,
                      sessionNotes = [], createdAt = 1003\<rparr>)],
      \<lparr>sessions =
         [\<lparr>sid = 0, userId = 1, taskId = 5, startTime = 1002, endTime = None,
           pomodorosCompleted = Some 0, totalMinutes = 0, wasCompleted = Some False,
           sessionNotes = [], createdAt = 1002\<rparr>,
          \<lparr>sid = 1, userId = 1, taskId = 5, startTime = 1003, endTime = None,
           pomodorosCompleted = Some 0, totalMinutes = 0, wasCompleted = Some False,
           sessionNotes = [], createdAt = 1003\<rparr>],
       tasks = [exampleTask], nextId = 2\<rparr>)
   \<and> length (activeSessions
         (snd (runPosts [(0, 1000), (1, 1001), (0, 1002), (1, 1003)]
                 [AtQuery (Some 1) (Some 5), AtQuery (Some 1) (Some 5)] idleStore)) 1) = 2
   \<and> map (\<lambda>h. h = Answered (Inl ActiveSessionExists))
       (fst (runPosts [(0, 1000), (0, 1001), (1, 1002), (1, 1003)]
               [AtQuery (Some 1) (Some 5), AtQuery (Some 1) (Some 5)] idleStore))
     = [False, True]
   \<and> length (activeSessions
         (snd (runPosts [(0, 1000), (0, 1001), (1, 1002), (1, 1003)]
                 [AtQuery (Some 1) (Some 5), AtQuery (Some 1) (Some 5)] idleStore)) 1) = 1"
  by (simp add: idleStore_def activeSessions_def Let_def)

subsection \<open>Completing a session\<close>

text \<open>
  Claim C2, as the code has it. When the session is found, the call succeeds, and the
  session it returns and persists has \<open>endTime = now\<close> and
  \<open>totalMinutes = floor ((now - startTime) / 60000 ms)\<close>; that value is non-negative
  exactly when the clock has not gone back behind \<open>startTime\<close>. No clock error exists.
\<close>

theorem complete_session_total_minutes:
  assumes "find (\<lambda>s. sid s = b_sessionId body \<and> userId s = u) (sessions st) = Some found"
  shows "\<exists>session st'. sessions_PUT now (Some u) body st = (Inr session, st')
     \<and> find (\<lambda>s. sid s = sid found) (sessions st') = Some session
     \<and> endTime session = Some now
     \<and> startTime session = startTime found
     \<and> totalMinutes session = \<lfloor>(of_int (now - startTime found) :: real) / 60000\<rfloor>
     \<and> (0 \<le> totalMinutes session \<longleftrightarrow> startTime found \<le> now)"
proof -
  let ?d = "completeFields now body found"
  obtain st' where eq: "sessions_PUT now (Some u) body st = (Inr ?d, st')"
    using PUT_found [OF assms] by blast
  have p: "find (\<lambda>s. sid s = sid found) (sessions st') = Some ?d"
    using PUT_persisted [OF assms, of now] by (simp add: eq)
  have m: "totalMinutes ?d = \<lfloor>(of_int (now - startTime found) :: real) / 60000\<rfloor>"
    by (simp only: floor_minutes completeFields_totalMinutes)
  have n: "0 \<le> totalMinutes ?d \<longleftrightarrow> startTime found \<le> now"
    by (simp add: completeFields_totalMinutes pos_imp_zdiv_nonneg_iff)
  have s: "startTime ?d = startTime found" by (simp add: completeFields_def Let_def)
  show ?thesis using eq p m n s completeFields_endTime [of now body found] by blast
qed

theorem complete_session_total_minutes_witness:
  "find (\<lambda>s. sid s = b_sessionId exampleBody \<and> userId s = 1) (sessions exampleStore)
     = Some exampleSession
   \<and> map_sum id totalMinutes (fst (sessions_PUT 3659999 (Some 1) exampleBody exampleStore))
     = Inr 60
   \<and> map totalMinutes (sessions (snd (sessions_PUT 3659999 (Some 1) exampleBody exampleStore)))
     = [60]"
proof -
  note h = find_exampleSession
  from complete_session_total_minutes [OF h, of 3659999]
  obtain session st' where
    d: "sessions_PUT 3659999 (Some 1) exampleBody exampleStore = (Inr session, st')"
       "totalMinutes session = \<lfloor>(of_int (3659999 - startTime exampleSession) :: real) / 60000\<rfloor>"
    by blast
  have "map totalMinutes (sessions (snd (sessions_PUT 3659999 (Some 1) exampleBody exampleStore)))
     = [60]"
    by (simp add: sessions_PUT_def completeFields_def saveSession_def saveTask_def Let_def
        exampleStore_def exampleSession_def exampleBody_def exampleTask_def)
  moreover have "totalMinutes session = 60"
  proof -
    have "totalMinutes session = (3659999 - startTime exampleSession) div 60000"
      using d(2) by (simp only: floor_minutes)
    then show ?thesis by (simp add: exampleSession_def)
  qed
  ultimately show ?thesis using h d(1) by simp
qed

text \<open>
  The claim as stated fails when the clock reads less than \<open>startTime\<close>: a session
  started at 120000 ms and completed at instant 0 is answered with success, and
  \<open>totalMinutes = -2\<close> is stored (and -2/60 hours are added to the task).
\<close>

theorem complete_session_clock_counterexample:
  "map_sum id totalMinutes (fst (sessions_PUT 0 (Some 1) exampleBody skewedStore)) = Inr (- 2)
   \<and> map totalMinutes (sessions (snd (sessions_PUT 0 (Some 1) exampleBody skewedStore))) = [- 2]
   \<and> map actualHours (tasks (snd (sessions_PUT 0 (Some 1) exampleBody skewedStore)))
       = [Some (- 1 / 30)]"
  by (simp add: sessions_PUT_def completeFields_def saveSession_def saveTask_def Let_def
      skewedStore_def exampleSession_def exampleBody_def exampleTask_def)

text \<open>
  Claim C3 does not hold of the code: the query of PUT does not ask for \<open>endTime\<close> to be
  null, so a session that is already completed is found and completed again. After one
  hour the first call adds 1 hour to the task; a second call on the same session an
  hour later is answered with success, stores 120 minutes and adds 2 more hours, so the
  task holds 3 hours for 2 hours of work.
\<close>

theorem complete_session_twice:
  "map actualHours (tasks (snd (sessions_PUT 3600000 (Some 1) exampleBody exampleStore)))
     = [Some 1]
   \<and> map endTime (sessions (snd (sessions_PUT 3600000 (Some 1) exampleBody exampleStore)))
     = [Some 3600000]
   \<and> map_sum id totalMinutes
       (fst (sessions_PUT 7200000 (Some 1) exampleBody
              (snd (sessions_PUT 3600000 (Some 1) exampleBody exampleStore))))
     = Inr 120
   \<and> map actualHours
       (tasks (snd (sessions_PUT 7200000 (Some 1) exampleBody
                     (snd (sessions_PUT 3600000 (Some 1) exampleBody exampleStore)))))
     = [Some 3]"
  by (simp add: sessions_PUT_def completeFields_def saveSession_def saveTask_def Let_def
      exampleStore_def exampleSession_def exampleBody_def exampleTask_def)

text \<open>
  Claim C8. When the session is found and its task no longer exists, the call succeeds:
  it returns the session with its final fields, that session is what the collection
  now holds under the id, and the tasks are left as they were.
\<close>

theorem complete_session_task_missing:
  assumes "find (\<lambda>s. sid s = b_sessionId body \<and> userId s = u) (sessions st) = Some found"
    and "find (\<lambda>t. tid t = taskId found) (tasks st) = None"
  shows "sessions_PUT now (Some u) body st =
           (Inr (completeFields now body found), saveSession (completeFields now body found) st)
     \<and> find (\<lambda>s. sid s = sid found) (sessions (saveSession (completeFields now body found) st))
         = Some (completeFields now body found)
     \<and> tasks (saveSession (completeFields now body found) st) = tasks st"
proof -
  have eq: "sessions_PUT now (Some u) body st =
           (Inr (completeFields now body found), saveSession (completeFields now body found) st)"
    using assms(2) by (simp add: PUT_found [OF assms(1)])
  moreover have "find (\<lambda>s. sid s = sid found) (sessions (saveSession (completeFields now body found) st))
         = Some (completeFields now body found)"
    using PUT_persisted [OF assms(1), of now] by (simp add: eq)
  ultimately show ?thesis by (simp add: saveSession_tasks)
qed

theorem complete_session_task_missing_witness:
  "find (\<lambda>s. sid s = b_sessionId exampleBody \<and> userId s = 1) (sessions orphanStore)
     = Some exampleSession
   \<and> find (\<lambda>t. tid t = taskId exampleSession) (tasks orphanStore) = None
   \<and> sessions_PUT 3600000 (Some 1) exampleBody orphanStore
     = (Inr (exampleSession\<lparr>endTime := Some 3600000, pomodorosCompleted := Some 2,
                             totalMinutes := 60, wasCompleted := Some True\<rparr>),
        \<lparr>sessions = [exampleSession\<lparr>endTime := Some 3600000, pomodorosCompleted := Some 2,
                                     totalMinutes := 60, wasCompleted := Some True\<rparr>],
         tasks = [], nextId = 1\<rparr>)"
proof -
  have h: "find (\<lambda>s. sid s = b_sessionId exampleBody \<and> userId s = 1) (sessions orphanStore)
     = Some exampleSession"
    by (simp add: exampleBody_def orphanStore_def exampleSession_def)
  have t: "find (\<lambda>t. tid t = taskId exampleSession) (tasks orphanStore) = None"
    by (simp add: orphanStore_def)
  from complete_session_task_missing [OF h t, of 3600000]
  have "sessions_PUT 3600000 (Some 1) exampleBody orphanStore =
           (Inr (completeFields 3600000 exampleBody exampleSession),
            saveSession (completeFields 3600000 exampleBody exampleSession) orphanStore)"
    by blast
  then have "sessions_PUT 3600000 (Some 1) exampleBody orphanStore
     = (Inr (exampleSession\<lparr>endTime := Some 3600000, pomodorosCompleted := Some 2,
                             totalMinutes := 60, wasCompleted := Some True\<rparr>),
        \<lparr>sessions = [exampleSession\<lparr>endTime := Some 3600000, pomodorosCompleted := Some 2,
                                     totalMinutes := 60, wasCompleted := Some True\<rparr>],
         tasks = [], nextId = 1\<rparr>)"
    by (simp add: completeFields_def saveSession_def Let_def orphanStore_def
        exampleSession_def exampleBody_def)
  with h t show ?thesis by simp
qed

text \<open>
  Claim C10. The session that a successful completion returns and persists keeps its
  stored notes when the request has no notes or an empty string (and takes the
  request's notes otherwise), while \<open>endTime\<close>, \<open>totalMinutes\<close>, \<open>pomodorosCompleted\<close>
  and \<open>wasCompleted\<close> are set to the new instant, the computed minutes and the values
  of the request.
\<close>

theorem complete_session_notes_frame:
  assumes "find (\<lambda>s. sid s = b_sessionId body \<and> userId s = u) (sessions st) = Some found"
  shows "\<exists>session st'. sessions_PUT now (Some u) body st = (Inr session, st')
     \<and> find (\<lambda>s. sid s = sid found) (sessions st') = Some session
     \<and> (b_notes body = None \<or> b_notes body = Some [] \<longrightarrow> sessionNotes session = sessionNotes found)
     \<and> (\<forall>n. b_notes body = Some n \<and> n \<noteq> [] \<longrightarrow> sessionNotes session = n)
     \<and> endTime session = Some now
     \<and> totalMinutes session = (now - startTime found) div 60000
     \<and> pomodorosCompleted session = b_pomodorosCompleted body
     \<and> wasCompleted session = b_wasCompleted body"
proof -
  let ?d = "completeFields now body found"
  obtain st' where eq: "sessions_PUT now (Some u) body st = (Inr ?d, st')"
    using PUT_found [OF assms] by blast
  have p: "find (\<lambda>s. sid s = sid found) (sessions st') = Some ?d"
    using PUT_persisted [OF assms, of now] by (simp add: eq)
  have f: "(b_notes body = None \<or> b_notes body = Some [] \<longrightarrow> sessionNotes ?d = sessionNotes found)
     \<and> (\<forall>n. b_notes body = Some n \<and> n \<noteq> [] \<longrightarrow> sessionNotes ?d = n)
     \<and> endTime ?d = Some now
     \<and> totalMinutes ?d = (now - startTime found) div 60000
     \<and> pomodorosCompleted ?d = b_pomodorosCompleted body
     \<and> wasCompleted ?d = b_wasCompleted body"
    by (auto simp: completeFields_def Let_def)
  show ?thesis using eq p f by blast
qed

theorem complete_session_notes_frame_witness:
  "find (\<lambda>s. sid s = b_sessionId emptyNotesBody \<and> userId s = 1) (sessions notedStore)
     = Some notedSession
   \<and> b_notes emptyNotesBody = Some []
   \<and> map_sum id sessionNotes (fst (sessions_PUT 3600000 (Some 1) emptyNotesBody notedStore))
     = Inr ''chapter 3''
   \<and> map_sum id endTime (fst (sessions_PUT 3600000 (Some 1) emptyNotesBody notedStore))
     = Inr (Some 3600000)"
proof -
  have h: "find (\<lambda>s. sid s = b_sessionId emptyNotesBody \<and> userId s = 1) (sessions notedStore)
     = Some notedSession"
    by (simp add: emptyNotesBody_def notedStore_def notedSession_def exampleSession_def)
  have n: "b_notes emptyNotesBody = Some []" by (simp add: emptyNotesBody_def)
  from complete_session_notes_frame [OF h, of 3600000] n
  obtain session st' where
    d: "sessions_PUT 3600000 (Some 1) emptyNotesBody notedStore = (Inr session, st')"
       "sessionNotes session = sessionNotes notedSession" "endTime session = Some 3600000"
    by blast
  from h n d show ?thesis by (simp add: notedSession_def)
qed


section \<open>Properties of the analytics route\<close>

subsection \<open>Auxiliary facts\<close>

lemma GET_fields:
  "\<exists>a. analytics_GET now z fl (Some u) st = Inr a
     \<and> currentStreak (summaryBlock a) = currentStreakOf now z (completedSessions st u)
     \<and> dailyStudyTime a = dailyStudyTimeOf now z fl (completedSessions st u)
     \<and> hourlyData a = hourlyDataOf z fl (completedSessions st u)
     \<and> mostProductiveHour a = mostProductiveHourOf (hourlyDataOf z fl (completedSessions st u))"
  by (simp add: analytics_GET_def Let_def)

lemma GET_summary:
  "\<exists>a. analytics_GET now z fl (Some u) st = Inr a
     \<and> summaryBlock a =
         \<lparr>totalPomodoros = foldl (\<lambda>sum s. sum + pomodorosOf s) 0 (completedSessions st u),
          totalHoursStudied =
            toFixed1 (of_int (foldl (\<lambda>sum s. sum + totalMinutes s) 0 (completedSessions st u)) / 60),
          overallAccuracy = toFixed1 (overallAccuracyOf (tasksOfUser st u)),
          currentStreak = currentStreakOf now z (completedSessions st u),
          sessionsCount = length (completedSessions st u)\<rparr>
     \<and> taskAccuracy a = map taskAccuracyOf (tasksOfUser st u)
     \<and> insights a =
         insightsOf
           (foldl (\<lambda>sum s. sum + pomodorosOf s) 0
              (filter (\<lambda>s. startTime s \<ge> now - 7 * 24 * 60 * 60 * 1000) (completedSessions st u)))
           (overallAccuracyOf (tasksOfUser st u))
           (mostProductiveHourOf (hourlyDataOf z fl (completedSessions st u)))
           (currentStreakOf now z (completedSessions st u))
           (underestimatedSubjectsOf fl (tasksOfUser st u))"
  by (simp add: analytics_GET_def Let_def)

text \<open>Without sessions the loop counts nothing, in every time zone.\<close>

lemma streakLoop_empty: "streakLoop z [] now i t = t"
proof (induction z "[] :: studySession list" now i t rule: streakLoop.induct)
  case (1 z now i t)
  have no: "\<not> hasSessions [] (isoDate (daysBefore z now i))" by (simp add: hasSessions_def)
  show ?case
  proof (cases "i < 30 \<and> isoDate (daysBefore z now i) = isoDate now")
    case True
    then have "streakLoop z [] now i t = streakLoop z [] now (Suc i) t"
      using no by (subst streakLoop.simps) simp
    also have "\<dots> = t" using True no by (intro "1.hyps"(2)) simp_all
    finally show ?thesis .
  next
    case False
    then show ?thesis using no by (subst streakLoop.simps) auto
  qed
qed

lemma streak_empty: "currentStreakOf now z [] = 0"
  unfolding currentStreakOf_def by (rule streakLoop_empty)

text \<open>
  On a server whose offset from UTC never changes, the calendar arithmetic of the handler
  is arithmetic on UTC day numbers; the loop is then the streak of the specification,
  and the seven days of the breakdown are the seven days up to today.
\<close>

lemma isoDate_daysBefore: "isoDate (daysBefore (fixedZone c) now i) = isoDate now - int i"
proof -
  have "(now + (- int i) * 86400000) div 86400000 = - int i + now div 86400000"
    by (rule div_mult_self1) simp
  then show ?thesis by (simp add: isoDate_def daysBefore_def fixedZone_def)
qed

lemma streakLoop_tail:
  "1 \<le> i \<Longrightarrow> streakLoop (fixedZone c) ss now i t
     = t + length (takeWhile (dayCounts ss now) [i..<30])"
proof (induction "fixedZone c" ss now i t rule: streakLoop.induct)
  case (1 ss now i t)
  let ?z = "fixedZone c"
  show ?case
  proof (cases "i < 30")
    case False
    then show ?thesis by (subst streakLoop.simps) simp
  next
    case True
    then have upt: "[i..<30] = i # [Suc i..<30]" by (rule upt_conv_Cons)
    have day: "isoDate (daysBefore ?z now i) \<noteq> isoDate now"
      using "1.prems" by (simp add: isoDate_daysBefore)
    show ?thesis
    proof (cases "hasSessions ss (isoDate (daysBefore ?z now i))")
      case yes: True
      then have "dayCounts ss now i" by (simp add: dayCounts_def isoDate_daysBefore)
      moreover have "streakLoop ?z ss now i t = streakLoop ?z ss now (Suc i) (Suc t)"
        using True yes by (subst streakLoop.simps) simp
      moreover have "streakLoop ?z ss now (Suc i) (Suc t)
           = Suc t + length (takeWhile (dayCounts ss now) [Suc i..<30])"
        using "1.hyps"(1) [OF True yes] by simp
      ultimately show ?thesis by (simp add: upt)
    next
      case no: False
      then have "\<not> dayCounts ss now i" by (simp add: dayCounts_def isoDate_daysBefore)
      moreover have "streakLoop ?z ss now i t = t"
        using True no day by (subst streakLoop.simps) simp
      ultimately show ?thesis by (simp add: upt)
    qed
  qed
qed

lemma currentStreakOf_fixedZone: "currentStreakOf now (fixedZone c) ss = streakSpec ss now"
proof -
  let ?z = "fixedZone c"
  have d0: "isoDate (daysBefore ?z now 0) = isoDate now" by (simp add: isoDate_daysBefore)
  have c0: "dayCounts ss now 0 = hasSessions ss (isoDate now)"
    by (simp add: dayCounts_def)
  have "streakLoop ?z ss now 0 0 =
      (if hasSessions ss (isoDate now) then streakLoop ?z ss now (Suc 0) (Suc 0)
       else streakLoop ?z ss now (Suc 0) 0)"
    by (subst streakLoop.simps) (simp add: d0)
  moreover have "streakLoop ?z ss now (Suc 0) (Suc 0)
      = Suc 0 + length (takeWhile (dayCounts ss now) [Suc 0..<30])"
    by (rule streakLoop_tail) simp
  moreover have "streakLoop ?z ss now (Suc 0) 0
      = 0 + length (takeWhile (dayCounts ss now) [Suc 0..<30])"
    by (rule streakLoop_tail) simp
  ultimately show ?thesis
    by (simp add: currentStreakOf_def streakSpec_def c0)
qed

lemma streakSpec_gap:
  assumes "dayCounts ss now 0" "dayCounts ss now 1" "\<not> dayCounts ss now 2"
  shows "streakSpec ss now = 2"
proof -
  have "[1..<30] = 1 # 2 # [3..<30]" by (simp add: upt_conv_Cons)
  with assms show ?thesis by (simp add: streakSpec_def)
qed

lemma set_last7Days_fixedZone:
  "set (last7Days (fixedZone c) now) = {isoDate now - 6 .. isoDate now}"
proof -
  have "[0..<7] = [0, 1, 2, 3, 4, 5, 6::nat]" by (simp add: upt_rec)
  then have "last7Days (fixedZone c) now = [isoDate now - 6, isoDate now - 5, isoDate now - 4,
      isoDate now - 3, isoDate now - 2, isoDate now - 1, isoDate now]"
    by (simp add: last7Days_def isoDate_daysBefore)
  then show ?thesis by auto
qed

text \<open>The keys of the daily breakdown are the seven dates it was given at the start.\<close>

lemma init_days: "foldl (\<lambda>m day. m(day \<mapsto> (0::real))) m0 ks d = (if d \<in> set ks then Some 0 else m0 d)"
  by (induction ks arbitrary: m0) auto

lemma dom_dailyStep: "dom (dailyStep fl m s) = dom m"
  by (auto simp: dailyStep_def Let_def split: option.splits if_splits)

lemma dom_daily_fold: "dom (foldl (dailyStep fl) m ss) = dom m"
proof (induction ss arbitrary: m)
  case Nil
  show ?case by simp
next
  case (Cons s ss)
  have "dom (foldl (dailyStep fl) m (s # ss)) = dom (foldl (dailyStep fl) (dailyStep fl m s) ss)"
    by simp
  also have "\<dots> = dom (dailyStep fl m s)" by (rule Cons.IH)
  also have "\<dots> = dom m" by (rule dom_dailyStep)
  finally show ?case .
qed

lemma dom_dailyStudyTimeOf: "dom (dailyStudyTimeOf now z fl ss) = set (last7Days z now)"
proof -
  have "dom (foldl (\<lambda>m day. m(day \<mapsto> (0::real))) Map.empty (last7Days z now))
        = set (last7Days z now)"
    by (auto simp: dom_def init_days)
  then show ?thesis by (simp add: dailyStudyTimeOf_def dom_daily_fold)
qed

lemma daily_keys_fixedZone:
  "dom (dailyStudyTimeOf now (fixedZone c) fl ss) = {isoDate now - 6 .. isoDate now}"
  by (simp add: dom_dailyStudyTimeOf set_last7Days_fixedZone)

text \<open>
  The hourly breakdown: the entry of an hour is the rounded sum, in the order of the
  sessions, of the hours of the sessions that started in it.
\<close>

lemma getHours_less: "getHours z t < 24"
  by (simp add: getHours_def nat_less_iff)

lemma hourlyStep_apply:
  "hourlyStep z fl m s h =
     (if getHours z (startTime s) = h then Some (fl (orZero (m h) + hoursOf fl s)) else m h)"
  by (simp add: hourlyStep_def Let_def)

lemma hourly_fold:
  "foldl (hourlyStep z fl) m ss h =
     (if list_ex (\<lambda>s. getHours z (startTime s) = h) ss
      then Some (foldl (\<lambda>acc s. fl (acc + hoursOf fl s)) (orZero (m h))
                   (filter (\<lambda>s. getHours z (startTime s) = h) ss))
      else m h)"
proof (induction ss arbitrary: m)
  case Nil
  show ?case by simp
next
  case (Cons s ss)
  have "foldl (hourlyStep z fl) m (s # ss) h = foldl (hourlyStep z fl) (hourlyStep z fl m s) ss h"
    by simp
  also have "\<dots> =
     (if list_ex (\<lambda>s. getHours z (startTime s) = h) ss
      then Some (foldl (\<lambda>acc s. fl (acc + hoursOf fl s)) (orZero (hourlyStep z fl m s h))
                   (filter (\<lambda>s. getHours z (startTime s) = h) ss))
      else hourlyStep z fl m s h)"
    by (rule Cons.IH)
  also have "\<dots> =
     (if list_ex (\<lambda>s. getHours z (startTime s) = h) (s # ss)
      then Some (foldl (\<lambda>acc s. fl (acc + hoursOf fl s)) (orZero (m h))
                   (filter (\<lambda>s. getHours z (startTime s) = h) (s # ss)))
      else m h)"
    by (simp add: hourlyStep_apply list_ex_iff filter_empty_conv)
  finally show ?case .
qed

lemma hourlyDataOf_value:
  "hourlyDataOf z fl ss h =
     (if list_ex (\<lambda>s. getHours z (startTime s) = h) ss
      then Some (foldl (\<lambda>acc s. fl (acc + hoursOf fl s)) 0
                   (filter (\<lambda>s. getHours z (startTime s) = h) ss))
      else None)"
  by (simp add: hourlyDataOf_def hourly_fold)

lemma hourlyDataOf_key_less: "hourlyDataOf z fl ss h = Some v \<Longrightarrow> h < 24"
  by (auto simp: hourlyDataOf_value list_ex_iff getHours_less split: if_splits)

lemma entriesOf_eq:
  "entriesOf m = map (\<lambda>h. (h, the (m h))) (filter (\<lambda>h. m h \<noteq> None) [0..<24])"
  unfolding entriesOf_def map_filter_def by (rule map_cong) auto

lemma sorted_entriesOf: "sorted_wrt (\<lambda>a b. fst a < fst b) (entriesOf m)"
  by (simp add: entriesOf_eq sorted_wrt_map sorted_wrt_filter)

lemma set_entriesOf: "(h, v) \<in> set (entriesOf m) \<longleftrightarrow> h < 24 \<and> m h = Some v"
  by (auto simp: entriesOf_eq)

lemma mostProductiveStep_apply:
  "mostProductiveStep (b, mx) (k, v) = (if v > mx then (k, v) else (b, mx))"
  by (simp add: mostProductiveStep_def)

lemma step_fold_ge:
  "foldl mostProductiveStep (b, mx) es = (r, vr) \<Longrightarrow> mx \<le> vr"
proof (induction es arbitrary: b mx)
  case Nil
  then show ?case by simp
next
  case (Cons e es)
  obtain k v where e: "e = (k, v)" by (cases e)
  show ?case
  proof (cases "v > mx")
    case True
    with Cons.prems e have "foldl mostProductiveStep (k, v) es = (r, vr)"
      by (simp add: mostProductiveStep_apply)
    then have "v \<le> vr" by (rule Cons.IH)
    with True show ?thesis by simp
  next
    case False
    with Cons.prems e have "foldl mostProductiveStep (b, mx) es = (r, vr)"
      by (simp add: mostProductiveStep_apply)
    then show ?thesis by (rule Cons.IH)
  qed
qed

lemma step_fold_bound:
  "foldl mostProductiveStep (b, mx) es = (r, vr) \<Longrightarrow> (k, v) \<in> set es \<Longrightarrow> v \<le> vr"
proof (induction es arbitrary: b mx)
  case Nil
  then show ?case by simp
next
  case (Cons e es)
  obtain k' v' where e: "e = (k', v')" by (cases e)
  show ?case
  proof (cases "v' > mx")
    case True
    with Cons.prems(1) e have f: "foldl mostProductiveStep (k', v') es = (r, vr)"
      by (simp add: mostProductiveStep_apply)
    show ?thesis
    proof (cases "(k, v) = e")
      case True
      with e f show ?thesis using step_fold_ge by auto
    next
      case False
      with Cons.prems(2) have "(k, v) \<in> set es" by simp
      with f show ?thesis by (rule Cons.IH)
    qed
  next
    case False
    with Cons.prems(1) e have f: "foldl mostProductiveStep (b, mx) es = (r, vr)"
      by (simp add: mostProductiveStep_apply)
    show ?thesis
    proof (cases "(k, v) = e")
      case True
      with e False have "v \<le> mx" by simp
      also from f have "mx \<le> vr" by (rule step_fold_ge)
      finally show ?thesis .
    next
      case no: False
      with Cons.prems(2) have "(k, v) \<in> set es" by simp
      with f show ?thesis by (rule Cons.IH)
    qed
  qed
qed

lemma step_fold_same:
  "foldl mostProductiveStep (b, mx) es = (r, vr) \<Longrightarrow> vr = mx \<Longrightarrow> r = b"
proof (induction es arbitrary: b mx)
  case Nil
  then show ?case by simp
next
  case (Cons e es)
  obtain k v where e: "e = (k, v)" by (cases e)
  show ?case
  proof (cases "v > mx")
    case True
    with Cons.prems(1) e have "foldl mostProductiveStep (k, v) es = (r, vr)"
      by (simp add: mostProductiveStep_apply)
    then have "v \<le> vr" by (rule step_fold_ge)
    with True Cons.prems(2) show ?thesis by simp
  next
    case False
    with Cons.prems(1) e have "foldl mostProductiveStep (b, mx) es = (r, vr)"
      by (simp add: mostProductiveStep_apply)
    then show ?thesis using Cons.prems(2) by (rule Cons.IH)
  qed
qed

lemma step_fold_first:
  assumes "sorted_wrt (\<lambda>a b. fst a < fst b) es"
    and "foldl mostProductiveStep (b, mx) es = (r, vr)"
    and "mx < vr"
  shows "(r, vr) \<in> set es \<and> (\<forall>k. (k, vr) \<in> set es \<longrightarrow> r \<le> k)"
  using assms
proof (induction es arbitrary: b mx)
  case Nil
  then show ?case by simp
next
  case (Cons e es)
  obtain k v where e: "e = (k, v)" by (cases e)
  from Cons.prems(1) have sorted: "sorted_wrt (\<lambda>a b. fst a < fst b) es"
    and later: "\<And>k' v'. (k', v') \<in> set es \<Longrightarrow> k < k'"
    by (auto simp: e)
  show ?case
  proof (cases "v > mx")
    case True
    with Cons.prems(2) e have f: "foldl mostProductiveStep (k, v) es = (r, vr)"
      by (simp add: mostProductiveStep_apply)
    then have ge: "v \<le> vr" by (rule step_fold_ge)
    show ?thesis
    proof (cases "v = vr")
      case True
      with f have "r = k" by (simp add: step_fold_same)
      with True e later show ?thesis by (auto simp: less_imp_le)
    next
      case False
      with ge have "v < vr" by simp
      with Cons.IH [OF sorted f] have "(r, vr) \<in> set es \<and> (\<forall>k. (k, vr) \<in> set es \<longrightarrow> r \<le> k)"
        by simp
      with False e show ?thesis by auto
    qed
  next
    case False
    with Cons.prems(2) e have f: "foldl mostProductiveStep (b, mx) es = (r, vr)"
      by (simp add: mostProductiveStep_apply)
    from Cons.IH [OF sorted f Cons.prems(3)]
    have "(r, vr) \<in> set es \<and> (\<forall>k. (k, vr) \<in> set es \<longrightarrow> r \<le> k)" .
    moreover from False Cons.prems(3) have "v \<noteq> vr" by simp
    ultimately show ?thesis using e by auto
  qed
qed

lemma mostProductiveHourOf_max:
  assumes keys: "\<And>h v. m h = Some v \<Longrightarrow> h < 24"
    and pos: "m h0 = Some v0" "0 < v0"
  shows "\<exists>vr. m (mostProductiveHourOf m) = Some vr
           \<and> (\<forall>h v. m h = Some v \<longrightarrow> v \<le> vr)
           \<and> (\<forall>h. m h = Some vr \<longrightarrow> mostProductiveHourOf m \<le> h)"
proof -
  obtain r vr where f: "foldl mostProductiveStep (0, 0) (entriesOf m) = (r, vr)"
    by (cases "foldl mostProductiveStep (0, 0) (entriesOf m)")
  then have r: "mostProductiveHourOf m = r" by (simp add: mostProductiveHourOf_def)
  have bound: "v \<le> vr" if "m h = Some v" for h v
  proof -
    from that keys have "(h, v) \<in> set (entriesOf m)" by (simp add: set_entriesOf)
    with f show ?thesis by (rule step_fold_bound)
  qed
  from pos have "0 < vr" using bound [of h0 v0] by simp
  with step_fold_first [OF sorted_entriesOf f]
  have "(r, vr) \<in> set (entriesOf m)" and "\<And>k. (k, vr) \<in> set (entriesOf m) \<Longrightarrow> r \<le> k"
    by auto
  then have "m r = Some vr" and "\<And>k. m k = Some vr \<Longrightarrow> r \<le> k"
    using keys by (auto simp: set_entriesOf)
  with bound r show ?thesis by auto
qed

lemma mph_zero:
  "mostProductiveHourOf (hourlyDataOf utcZone exact (completedSessions zeroMinuteStore 1)) = 0"
  by (simp add: zeroMinuteStore_def completedSessions_def hourlyDataOf_def hourlyStep_def
      getHours_def utcZone_def fixedZone_def exact_def hoursOf_def mostProductiveHourOf_def
      entriesOf_def upt_rec mostProductiveStep_def Let_def)

lemma mph_tie:
  "mostProductiveHourOf (hourlyDataOf utcZone exact (completedSessions tieStore 1)) = 9"
  by (simp add: tieStore_def completedSessions_def hourlyDataOf_def hourlyStep_def
      getHours_def utcZone_def fixedZone_def exact_def hoursOf_def mostProductiveHourOf_def
      entriesOf_def upt_rec mostProductiveStep_def Let_def)

lemma toFixed1_zero: "toFixed1 0 = 0"
  by (simp add: toFixed1_def floor_one_divide_eq_div_numeral)

lemma toFixed1_m50: "toFixed1 (- 50) = - 50"
  by (simp add: toFixed1_def floor_divide_eq_div_numeral)

subsection \<open>Accuracy\<close>

text \<open>
  Claim C4 does not hold of the code for the overall accuracy. Each row of the task list
  is floored at zero by \<^verbatim>\<open>Math.max(0, accuracyPercent)\<close>; the overall figure, computed
  from the sums by the same expression a few lines below, is not. For a single task
  estimated at 10 hours with 25 actual hours the row reports 0 and the summary
  reports -50.
\<close>

theorem overall_accuracy_not_floored:
  "map_sum id (map accuracyPercent \<circ> taskAccuracy) (analytics_GET now z fl (Some 1) overrunStore)
     = Inr [0]
   \<and> map_sum id (overallAccuracy \<circ> summaryBlock) (analytics_GET now z fl (Some 1) overrunStore)
     = Inr (- 50)"
proof -
  obtain a where a: "analytics_GET now z fl (Some 1) overrunStore = Inr a"
    and s: "summaryBlock a =
         \<lparr>totalPomodoros = foldl (\<lambda>sum s. sum + pomodorosOf s) 0 (completedSessions overrunStore 1),
          totalHoursStudied =
            toFixed1 (of_int (foldl (\<lambda>sum s. sum + totalMinutes s) 0 (completedSessions overrunStore 1)) / 60),
          overallAccuracy = toFixed1 (overallAccuracyOf (tasksOfUser overrunStore 1)),
          currentStreak = currentStreakOf now z (completedSessions overrunStore 1),
          sessionsCount = length (completedSessions overrunStore 1)\<rparr>"
    and t: "taskAccuracy a = map taskAccuracyOf (tasksOfUser overrunStore 1)"
    using GET_summary [of now z fl 1 overrunStore] by blast
  have "overallAccuracyOf (tasksOfUser overrunStore 1) = - 50"
    by (simp add: overallAccuracyOf_def totalEstimatedOf_def totalActualOf_def tasksOfUser_def
        overrunStore_def overrunTask_def)
  then have "overallAccuracy (summaryBlock a) = - 50" by (simp add: s toFixed1_m50)
  moreover have "map accuracyPercent (taskAccuracy a) = [0]"
    by (simp add: t taskAccuracyOf_def tasksOfUser_def overrunStore_def overrunTask_def Let_def)
  ultimately show ?thesis using a by simp
qed

subsection \<open>No data\<close>

text \<open>
  Claim C5 does not hold of the code for the insight list. For a user without tasks and
  without completed sessions the request succeeds and every summary field is zero, but
  the list holds two insights: the warning that the estimates are often off, since an
  overall accuracy of 0 is below 50, and the peak-productivity note for 12 AM, since
  its guard \<^verbatim>\<open>mostProductiveHour || mostProductiveHour === 0\<close> holds of every hour.
\<close>

theorem analytics_no_data:
  assumes "completedSessions st u = []" and "tasksOfUser st u = []"
  shows "\<exists>a. analytics_GET now z fl (Some u) st = Inr a
     \<and> summaryBlock a = \<lparr>totalPomodoros = 0, totalHoursStudied = 0, overallAccuracy = 0,
                           currentStreak = 0, sessionsCount = 0\<rparr>
     \<and> insights a = [EstimatesOff, PeakProductivity 12 ''AM'']"
proof -
  have m: "mostProductiveHourOf (hourlyDataOf z fl []) = 0"
    by (simp add: mostProductiveHourOf_def hourlyDataOf_def entriesOf_def map_filter_def)
  have o: "overallAccuracyOf [] = 0"
    by (simp add: overallAccuracyOf_def totalEstimatedOf_def totalActualOf_def)
  have i: "insightsOf 0 0 0 0 (underestimatedSubjectsOf fl []) = [EstimatesOff, PeakProductivity 12 ''AM'']"
    by (simp add: insightsOf_def underestimatedSubjectsOf_def)
  from GET_summary [of now z fl u st]
  obtain a where a: "analytics_GET now z fl (Some u) st = Inr a"
    and s: "summaryBlock a = \<lparr>totalPomodoros = 0, totalHoursStudied = 0, overallAccuracy = 0,
                           currentStreak = 0, sessionsCount = 0\<rparr>"
    and n: "insights a = [EstimatesOff, PeakProductivity 12 ''AM'']"
    by (auto simp: assms m o i streak_empty toFixed1_zero)
  then show ?thesis by blast
qed

theorem analytics_no_data_witness:
  "completedSessions emptyStore 1 = [] \<and> tasksOfUser emptyStore 1 = []
   \<and> map_sum id summaryBlock (analytics_GET 0 utcZone exact (Some 1) emptyStore)
     = Inr \<lparr>totalPomodoros = 0, totalHoursStudied = 0, overallAccuracy = 0,
            currentStreak = 0, sessionsCount = 0\<rparr>
   \<and> map_sum id insights (analytics_GET 0 utcZone exact (Some 1) emptyStore)
     = Inr [EstimatesOff, PeakProductivity 12 ''AM'']"
proof -
  have e: "completedSessions emptyStore 1 = []" "tasksOfUser emptyStore 1 = []"
    by (simp_all add: completedSessions_def tasksOfUser_def emptyStore_def)
  from analytics_no_data [OF e, of 0 utcZone exact]
  obtain a where "analytics_GET 0 utcZone exact (Some 1) emptyStore = Inr a"
    and "summaryBlock a = \<lparr>totalPomodoros = 0, totalHoursStudied = 0, overallAccuracy = 0,
                           currentStreak = 0, sessionsCount = 0\<rparr>"
    and "insights a = [EstimatesOff, PeakProductivity 12 ''AM'']"
    by blast
  with e show ?thesis by simp
qed

subsection \<open>Streak\<close>

text \<open>
  Claim C6 does not hold of the code on a server with daylight saving. The loop steps
  back through the server's local calendar days and names each by its UTC date, so
  across a change of the offset a UTC date is skipped or met twice. In New York on
  5 November 2024 at 00:30 UTC, two days after the clocks went back, the dates scanned
  are 5, 4, 2 and 1 November: with completed sessions today, yesterday and three days
  ago and none two days ago, the day without session is never tested and the streak
  is 3, where the scan the claim describes gives 2. (On a server with a constant offset
  the loop is that scan: \<open>currentStreakOf_fixedZone\<close>.)
\<close>

theorem streak_skips_a_day:
  "map (dayCounts (completedSessions novemberStore 1) 1730766600000) [0, 1, 2, 3]
     = [True, True, False, True]
   \<and> streakSpec (completedSessions novemberStore 1) 1730766600000 = 2
   \<and> map (\<lambda>i. isoDate (daysBefore newYork2024 1730766600000 i)) [0, 1, 2, 3]
     = [20032, 20031, 20029, 20028]
   \<and> map_sum id (currentStreak \<circ> summaryBlock)
       (analytics_GET 1730766600000 newYork2024 fl (Some 1) novemberStore)
     = Inr 3"
proof -
  let ?ss = "completedSessions novemberStore 1"
  have d: "dayCounts ?ss 1730766600000 0" "dayCounts ?ss 1730766600000 1"
    "\<not> dayCounts ?ss 1730766600000 2" "dayCounts ?ss 1730766600000 3"
    by (simp_all add: dayCounts_def hasSessions_def completedSessions_def novemberStore_def
        isoDate_def)
  have spec: "streakSpec ?ss 1730766600000 = 2"
    using d(1-3) by (rule streakSpec_gap)
  have days: "map (\<lambda>i. isoDate (daysBefore newYork2024 1730766600000 i)) [0, 1, 2, 3]
     = [20032, 20031, 20029, 20028]"
    by (simp add: daysBefore_def newYork2024_def isoDate_def Let_def)
  have today: "isoDate 1730766600000 = 20032" by (simp add: isoDate_def)
  have has: "hasSessions ?ss 20032" "hasSessions ?ss 20031" "hasSessions ?ss 20029"
    "\<not> hasSessions ?ss 20028"
    by (simp_all add: hasSessions_def completedSessions_def novemberStore_def isoDate_def)
  have "streakLoop newYork2024 ?ss 1730766600000 3 3 = 3"
    using days has today by (subst streakLoop.simps) simp
  then have "streakLoop newYork2024 ?ss 1730766600000 2 2 = 3"
    using days has by (subst streakLoop.simps) (simp add: numeral_3_eq_3 numeral_2_eq_2)
  then have "streakLoop newYork2024 ?ss 1730766600000 1 1 = 3"
    using days has by (subst streakLoop.simps) (simp add: numeral_2_eq_2)
  then have "streakLoop newYork2024 ?ss 1730766600000 0 0 = 3"
    using days has by (subst streakLoop.simps) simp
  then have loop: "currentStreakOf 1730766600000 newYork2024 ?ss = 3"
    by (simp add: currentStreakOf_def)
  obtain a where a: "analytics_GET 1730766600000 newYork2024 fl (Some 1) novemberStore = Inr a"
    and c: "currentStreak (summaryBlock a) = currentStreakOf 1730766600000 newYork2024 ?ss"
    using GET_fields [of 1730766600000 newYork2024 fl 1 novemberStore] by blast
  from a c loop d spec days show ?thesis by simp
qed

subsection \<open>Daily breakdown\<close>

text \<open>
  Claim C7 does not hold of the code on a server with daylight saving, by the same
  mixture of local calendar days and UTC dates as for the streak. In New York on
  11 March 2024 at 23:30 UTC, the day after the clocks went forward, the seven dates the
  handler builds are 6, 7, 8, 9, 10, 10 and 11 March: the breakdown has six keys,
  whatever the sessions, and the sixth day before today is not among them. (On a
  server with a constant offset the keys are the seven days up to today:
  \<open>daily_keys_fixedZone\<close>.)
\<close>

theorem daily_breakdown_repeats_a_day:
  "isoDate 1710199800000 = 19793
   \<and> last7Days newYork2024 1710199800000 = [19788, 19789, 19790, 19791, 19792, 19792, 19793]
   \<and> map_sum id (\<lambda>a. dom (dailyStudyTime a))
       (analytics_GET 1710199800000 newYork2024 fl (Some u) st)
     = Inr {19788, 19789, 19790, 19791, 19792, 19793}
   \<and> map_sum id (\<lambda>a. card (dom (dailyStudyTime a)))
       (analytics_GET 1710199800000 newYork2024 fl (Some u) st)
     = Inr 6"
proof -
  have "[0..<7] = [0, 1, 2, 3, 4, 5, 6::nat]" by (simp add: upt_rec)
  then have days: "last7Days newYork2024 1710199800000
      = [19788, 19789, 19790, 19791, 19792, 19792, 19793]"
    by (simp add: last7Days_def daysBefore_def newYork2024_def isoDate_def Let_def)
  obtain a where a: "analytics_GET 1710199800000 newYork2024 fl (Some u) st = Inr a"
    and d: "dailyStudyTime a = dailyStudyTimeOf 1710199800000 newYork2024 fl (completedSessions st u)"
    using GET_fields [of 1710199800000 newYork2024 fl u st] by blast
  have dm: "dom (dailyStudyTime a) = {19788, 19789, 19790, 19791, 19792, 19793}"
    by (auto simp: d dom_dailyStudyTimeOf days)
  then have "card (dom (dailyStudyTime a)) = 6" by simp
  with a dm days show ?thesis by (simp add: isoDate_def)
qed

subsection \<open>Most productive hour\<close>

text \<open>
  Claim C9, as the code has it. The keys of the hourly breakdown are the hours in which
  a completed session started, and the entry of an hour is the sum of
  \<open>totalMinutes / 60\<close> of these sessions as the handler computes it: in the order of the
  sessions, each division and each addition rounded. When some hour has a positive
  entry, the most productive hour is a key of the breakdown whose entry is maximal, and
  among the hours with that entry it is the lowest one: \<^verbatim>\<open>Object.entries\<close> lists the
  hours in ascending order, whatever the order in which the sessions were accumulated.
  This holds for every rounding \<open>fl\<close>.
\<close>

theorem most_productive_hour:
  "\<exists>a. analytics_GET now z fl (Some u) st = Inr a
     \<and> (\<forall>h. hourlyData a h =
           (if list_ex (\<lambda>s. getHours z (startTime s) = h) (completedSessions st u)
            then Some (foldl (\<lambda>acc s. fl (acc + fl (of_int (totalMinutes s) / 60))) 0
                   (filter (\<lambda>s. getHours z (startTime s) = h) (completedSessions st u)))
            else None))
     \<and> ((\<exists>h v. hourlyData a h = Some v \<and> 0 < v) \<longrightarrow>
          (\<exists>vr. hourlyData a (mostProductiveHour a) = Some vr
             \<and> (\<forall>h v. hourlyData a h = Some v \<longrightarrow> v \<le> vr)
             \<and> (\<forall>h. hourlyData a h = Some vr \<longrightarrow> mostProductiveHour a \<le> h)))"
proof -
  let ?m = "hourlyDataOf z fl (completedSessions st u)"
  obtain a where a: "analytics_GET now z fl (Some u) st = Inr a"
    and h: "hourlyData a = ?m"
    and m: "mostProductiveHour a = mostProductiveHourOf ?m"
    using GET_fields [of now z fl u st] by blast
  have v: "\<forall>h. hourlyData a h =
           (if list_ex (\<lambda>s. getHours z (startTime s) = h) (completedSessions st u)
            then Some (foldl (\<lambda>acc s. fl (acc + fl (of_int (totalMinutes s) / 60))) 0
                   (filter (\<lambda>s. getHours z (startTime s) = h) (completedSessions st u)))
            else None)"
    by (simp add: h hourlyDataOf_value hoursOf_def)
  have "\<exists>vr. ?m (mostProductiveHourOf ?m) = Some vr
           \<and> (\<forall>h v. ?m h = Some v \<longrightarrow> v \<le> vr)
           \<and> (\<forall>h. ?m h = Some vr \<longrightarrow> mostProductiveHourOf ?m \<le> h)"
    if "?m h0 = Some v0" "0 < v0" for h0 v0
    using hourlyDataOf_key_less that by (rule mostProductiveHourOf_max)
  then have "(\<exists>h v. ?m h = Some v \<and> 0 < v) \<longrightarrow>
          (\<exists>vr. ?m (mostProductiveHourOf ?m) = Some vr
             \<and> (\<forall>h v. ?m h = Some v \<longrightarrow> v \<le> vr)
             \<and> (\<forall>h. ?m h = Some vr \<longrightarrow> mostProductiveHourOf ?m \<le> h))"
    by blast
  then have "(\<exists>h v. hourlyData a h = Some v \<and> 0 < v) \<longrightarrow>
          (\<exists>vr. hourlyData a (mostProductiveHour a) = Some vr
             \<and> (\<forall>h v. hourlyData a h = Some v \<longrightarrow> v \<le> vr)
             \<and> (\<forall>h. hourlyData a h = Some vr \<longrightarrow> mostProductiveHour a \<le> h))"
    by (simp only: h m)
  with a v show ?thesis by blast
qed

theorem most_productive_hour_witness:
  "map_sum id (\<lambda>a. map (hourlyData a) [9, 14]) (analytics_GET 0 utcZone exact (Some 1) tieStore)
     = Inr [Some 1, Some 1]
   \<and> map_sum id mostProductiveHour (analytics_GET 0 utcZone exact (Some 1) tieStore) = Inr 9"
proof -
  let ?ss = "completedSessions tieStore 1"
  from most_productive_hour [of 0 utcZone exact 1 tieStore]
  obtain a where a: "analytics_GET 0 utcZone exact (Some 1) tieStore = Inr a"
    and v: "\<And>h. hourlyData a h =
           (if list_ex (\<lambda>s. getHours utcZone (startTime s) = h) ?ss
            then Some (foldl (\<lambda>acc s. exact (acc + exact (of_int (totalMinutes s) / 60))) 0
                   (filter (\<lambda>s. getHours utcZone (startTime s) = h) ?ss))
            else None)"
    and mx: "(\<exists>h v. hourlyData a h = Some v \<and> 0 < v) \<longrightarrow>
          (\<exists>vr. hourlyData a (mostProductiveHour a) = Some vr
             \<and> (\<forall>h v. hourlyData a h = Some v \<longrightarrow> v \<le> vr)
             \<and> (\<forall>h. hourlyData a h = Some vr \<longrightarrow> mostProductiveHour a \<le> h))"
    by blast
  have vals: "hourlyData a h = (if h = 9 \<or> h = 14 then Some 1 else None)" for h
    unfolding v
    by (simp add: completedSessions_def tieStore_def getHours_def utcZone_def fixedZone_def
        exact_def)
  then have h9: "hourlyData a 9 = Some 1" and h14: "hourlyData a 14 = Some 1" by simp_all
  from mx h9 obtain vr where vr: "hourlyData a (mostProductiveHour a) = Some vr"
    and low: "\<And>h. hourlyData a h = Some vr \<Longrightarrow> mostProductiveHour a \<le> h"
    by fastforce
  from vr vals have "vr = 1" and "mostProductiveHour a = 9 \<or> mostProductiveHour a = 14"
    by (auto split: if_splits)
  with low [of 9] h9 have "mostProductiveHour a = 9" by auto
  with a h9 h14 show ?thesis by simp
qed

text \<open>
  The claim as stated fails on two inputs. A single session at 14:00 that lasted less
  than a minute gives the breakdown the only key 14 with total 0, and the most
  productive hour is 0, which is not a key: the scan keeps an hour only when its total
  exceeds the initial maximum 0. Two one-hour sessions accumulated in the order 14:00,
  09:00 tie, and the result is 9, not the hour met first during accumulation.
\<close>

theorem most_productive_hour_counterexample:
  "map_sum id (\<lambda>a. map (hourlyData a) [0, 14])
     (analytics_GET 0 utcZone exact (Some 1) zeroMinuteStore)
     = Inr [None, Some 0]
   \<and> map_sum id mostProductiveHour (analytics_GET 0 utcZone exact (Some 1) zeroMinuteStore)
     = Inr 0
   \<and> map (\<lambda>s. (getHours utcZone (startTime s), hoursOf exact s)) (completedSessions tieStore 1)
     = [(14, 1), (9, 1)]
   \<and> map_sum id mostProductiveHour (analytics_GET 0 utcZone exact (Some 1) tieStore) = Inr 9"
proof -
  obtain a where a: "analytics_GET 0 utcZone exact (Some 1) zeroMinuteStore = Inr a"
    and h: "hourlyData a = hourlyDataOf utcZone exact (completedSessions zeroMinuteStore 1)"
    and m: "mostProductiveHour a
      = mostProductiveHourOf (hourlyDataOf utcZone exact (completedSessions zeroMinuteStore 1))"
    using GET_fields [of 0 utcZone exact 1 zeroMinuteStore] by blast
  obtain b where b: "analytics_GET 0 utcZone exact (Some 1) tieStore = Inr b"
    and m': "mostProductiveHour b
      = mostProductiveHourOf (hourlyDataOf utcZone exact (completedSessions tieStore 1))"
    using GET_fields [of 0 utcZone exact 1 tieStore] by blast
  have "map (hourlyData a) [0, 14] = [None, Some 0]"
    by (simp add: h hourlyDataOf_value completedSessions_def zeroMinuteStore_def getHours_def
        utcZone_def fixedZone_def exact_def hoursOf_def)
  moreover have "map (\<lambda>s. (getHours utcZone (startTime s), hoursOf exact s))
      (completedSessions tieStore 1) = [(14, 1), (9, 1)]"
    by (simp add: completedSessions_def tieStore_def getHours_def utcZone_def fixedZone_def
        exact_def hoursOf_def)
  moreover have "mostProductiveHour a = 0" by (simp only: m mph_zero)
  moreover have "mostProductiveHour b = 9" by (simp only: m' mph_tie)
  ultimately show ?thesis using a b by simp
qed

end
